theory Spec2Isabelle
  imports Complex_Main "HOL-Library.Log_Nat"
begin

section \<open>Binary64 arithmetic\<close>

text \<open>
  The script computes on numpy \<^verbatim>\<open>float64\<close> arrays. A finite binary64 value is modelled
  as the rational number it denotes, and every arithmetic operation as the exact operation
  followed by rounding to the nearest value with a 53-bit significand, ties to the even
  significand (the IEEE 754 default that numpy uses).

  The exponent is not bounded in \<open>fl64\<close>. For binary64 inputs this changes no result of
  the estimator: a difference of two binary64 values that lies in the subnormal range is
  exact in both readings, a difference that overflows is discarded by the band filter
  (it is not below 2.0) in both readings, and every value computed after the band filter
  lies between 0.2 and 300, far inside the normal range.
\<close>

definition round_half_even :: "rat \<Rightarrow> int" where
  "round_half_even m =
     (let f = \<lfloor>m\<rfloor>; d = m - of_int f in
      if d < 1/2 then f else if 1/2 < d then f + 1 else if even f then f else f + 1)"

text \<open>\<open>ilog2 x\<close> is the binary exponent of a positive rational: \<open>2 powi ilog2 x \<le> x < 2 powi (ilog2 x + 1)\<close>.\<close>

definition ilog2 :: "rat \<Rightarrow> int" where
  "ilog2 x = (case quotient_of x of (p, q) \<Rightarrow>
      (let k = bitlen p - bitlen q in if 2 powi k \<le> x then k else k - 1))"

definition fl64 :: "rat \<Rightarrow> rat" where
  "fl64 x = (if x = 0 then 0 else
     (let e = ilog2 \<bar>x\<bar> - 52 in
      sgn x * of_int (round_half_even (\<bar>x\<bar> / 2 powi e)) * 2 powi e))"

text \<open>
  A float64 result that is not finite. The timestamps are finite; a division by zero or the
  mean of an empty slice does not raise in numpy, it yields \<^verbatim>\<open>inf\<close> or \<^verbatim>\<open>nan\<close> (with a
  RuntimeWarning). These results are kept as the left summand.
\<close>

datatype nonfinite = Infinite | NaN

definition fsub :: "rat \<Rightarrow> rat \<Rightarrow> rat" where
  "fsub a b = fl64 (a - b)"

definition fadd :: "rat \<Rightarrow> rat \<Rightarrow> rat" where
  "fadd a b = fl64 (a + b)"

definition fdiv :: "rat \<Rightarrow> rat \<Rightarrow> nonfinite + rat" where
  "fdiv a b = (if b = 0 then Inl (if a = 0 then NaN else Infinite) else Inr (fl64 (a / b)))"

section \<open>The numpy operations used by the estimator\<close>

text \<open>\<^verbatim>\<open>np.diff(a)\<close> is \<^verbatim>\<open>a[1:] - a[:-1]\<close>.\<close>

definition np_diff :: "rat list \<Rightarrow> rat list" where
  "np_diff a = map2 fsub (drop 1 a) (butlast a)"

text \<open>
  \<^verbatim>\<open>np.mean\<close> of a float64 array: the sum of the elements divided by their number;
  \<^verbatim>\<open>nan\<close> for an empty array. The sum is taken from left to right, which is numpy's
  order for the one or two elements that the median averages.
\<close>

definition np_sum :: "rat list \<Rightarrow> rat" where
  "np_sum a = (case a of [] \<Rightarrow> 0 | x # xs \<Rightarrow> foldl fadd x xs)"

definition np_mean :: "rat list \<Rightarrow> nonfinite + rat" where
  "np_mean a = (if a = [] then Inl NaN else fdiv (np_sum a) (of_nat (length a)))"

text \<open>
  \<^verbatim>\<open>np.median\<close>: the array is partitioned so that the middle position (the two middle
  positions for an even length) holds what a full sort would put there; the slice
  \<^verbatim>\<open>part[index:index+1]\<close> (odd length) or \<^verbatim>\<open>part[index-1:index+1]\<close> (even length)
  is then averaged with \<^verbatim>\<open>mean\<close>.
\<close>

definition np_median :: "rat list \<Rightarrow> nonfinite + rat" where
  "np_median a =
     (let part = sort a; sz = length a; index = sz div 2 in
      if sz = 0 then np_mean []
      else if sz mod 2 = 1 then np_mean (take 1 (drop index part))
      else np_mean (take 2 (drop (index - 1) part)))"

section \<open>The tempo estimator\<close>

text \<open>
  The band of plausible inter-beat intervals, \<^verbatim>\<open>(intervals > 0.2) & (intervals < 2.0)\<close>.
  The literal \<^verbatim>\<open>0.2\<close> is the binary64 value nearest to one fifth; 2.0 and 60.0 are exact.
\<close>

definition calculate_bpm_from_beats :: "rat list \<Rightarrow> nonfinite + rat" where
  "calculate_bpm_from_beats beats =
     (if length beats < 2 then Inr 0
      else
        (let intervals = np_diff beats;
             valid_intervals = filter (\<lambda>d. fl64 (2/10) < d \<and> d < 2) intervals in
         if length valid_intervals = 0 then Inr 0
         else
           (case np_median valid_intervals of
              Inl nf \<Rightarrow> Inl nf
            | Inr median_interval \<Rightarrow> fdiv 60 median_interval)))"

text \<open>
  The median in the words of the specification: the middle value of the sorted intervals,
  and for an even number of values the average of the two middle values (sum and halving
  in binary64 arithmetic). It is used for non-empty lists only.
\<close>

definition median_spec :: "rat list \<Rightarrow> rat" where
  "median_spec xs =
     (let s = sort xs; n = length xs in
      if even n then fl64 (fadd (s ! (n div 2 - 1)) (s ! (n div 2)) / 2)
      else s ! (n div 2))"

text \<open>Adding a constant to every timestamp, \<^verbatim>\<open>beats + c\<close> on a float64 array.\<close>

definition translate :: "rat \<Rightarrow> rat list \<Rightarrow> rat list" where
  "translate c beats = map (\<lambda>t. fadd t c) beats"

section \<open>Result assembly\<close>

datatype json =
    JNumber "nonfinite + rat"
  | JString string
  | JArray "json list"
  | JObject "(string \<times> json) list"

record args =
  wav_path :: string
  min_bpm :: rat
  max_bpm :: rat

text \<open>
  What a call can raise. \<^verbatim>\<open>except Exception as e\<close> catches the instances of
  \<^verbatim>\<open>Exception\<close> and reads \<^verbatim>\<open>str(e)\<close> only, the string carried here. \<^verbatim>\<open>SystemExit\<close>,
  \<^verbatim>\<open>KeyboardInterrupt\<close> and every other \<^verbatim>\<open>BaseException\<close> that is not an
  \<^verbatim>\<open>Exception\<close> pass that handler.
\<close>

datatype exn =
    Exception string
  | SystemExit int
  | KeyboardInterrupt
  | Other_BaseException string

text \<open>
  How a run of \<open>main\<close> ends: with the JSON documents printed on standard output and on
  standard error and the status passed to \<^verbatim>\<open>sys.exit\<close>, or with an exception that leaves
  \<open>main\<close> uncaught. The latter is what \<^verbatim>\<open>parser.parse_args()\<close> does on a malformed
  command line (it prints its own text and raises \<^verbatim>\<open>SystemExit(2)\<close> before the \<^verbatim>\<open>try\<close>
  block is entered), and what happens to a raise inside the \<^verbatim>\<open>try\<close> block that the
  handler does not catch.
\<close>

datatype outcome =
    Exit (stdout: "json list") (stderr: "json list") (status: int)
  | Uncaught exn

text \<open>
  The collaborators are parameters: \<open>parse_args\<close> is argparse on the command line,
  \<open>RNNBeatProcessor\<close> builds the activation estimator and applies it to the file,
  \<open>DBNBeatTrackingProcessor\<close> builds the tracker (fps, min_bpm, max_bpm) and applies it to
  the activations. Each of them may raise. \<^verbatim>\<open>sys.exit(0)\<close> raises SystemExit, which
  is not an \<^verbatim>\<open>Exception\<close> and passes the handler: the run ends with status 0.
\<close>

definition main ::
  "(string list \<Rightarrow> exn + args) \<Rightarrow> (string \<Rightarrow> exn + 'act) \<Rightarrow>
   (rat \<Rightarrow> rat \<Rightarrow> rat \<Rightarrow> 'act \<Rightarrow> exn + rat list) \<Rightarrow> string list \<Rightarrow> outcome" where
  "main parse_args RNNBeatProcessor DBNBeatTrackingProcessor argv =
     (case parse_args argv of
        Inl raised \<Rightarrow> Uncaught raised
      | Inr args \<Rightarrow>
          (case
             (case RNNBeatProcessor (wav_path args) of
                Inl raised \<Rightarrow> Inl raised
              | Inr activations \<Rightarrow>
                  (case DBNBeatTrackingProcessor 100 (min_bpm args) (max_bpm args) activations of
                     Inl raised \<Rightarrow> Inl raised
                   | Inr beats \<Rightarrow>
                       (let bpm = calculate_bpm_from_beats beats;
                            result = JObject
                              [(''beats'', JArray (map (\<lambda>t. JNumber (Inr t)) beats)),
                               (''bpm'', JNumber bpm),
                               (''confidence'', JNumber (Inr (fl64 (85/100))))]
                        in Inr (Exit [result] [] 0))))
           of
             Inr finished \<Rightarrow> finished
           | Inl raised \<Rightarrow>
               (case raised of
                  Exception msg \<Rightarrow>
                    (let error_result = JObject
                       [(''error'', JString msg),
                        (''beats'', JArray []),
                        (''bpm'', JNumber (Inr 0)),
                        (''confidence'', JNumber (Inr 0))]
                     in Exit [] [error_result] 1)
                | SystemExit code \<Rightarrow> Uncaught raised
                | KeyboardInterrupt \<Rightarrow> Uncaught raised
                | Other_BaseException name \<Rightarrow> Uncaught raised)))"

text \<open>
  The two shapes of the specification's section 6: the success document on standard output
  with status 0, and the failure document, with a non-empty message, on standard error with
  status 1. \<open>error_shape\<close> is the failure shape without the condition on the message.
\<close>

definition success_shape :: "outcome \<Rightarrow> bool" where
  "success_shape out =
     (case out of
        Exit so se st \<Rightarrow>
          (case so of
             [JObject [(k1, JArray bs), (k2, JNumber b), (k3, JNumber c)]] \<Rightarrow>
               k1 = ''beats'' \<and> k2 = ''bpm'' \<and> k3 = ''confidence'' \<and> se = [] \<and> st = 0
           | _ \<Rightarrow> False)
      | Uncaught raised \<Rightarrow> False)"

definition error_shape :: "outcome \<Rightarrow> bool" where
  "error_shape out =
     (case out of
        Exit so se st \<Rightarrow>
          (case se of
             [JObject [(k1, JString msg), (k2, JArray bs), (k3, JNumber b), (k4, JNumber c)]] \<Rightarrow>
               k1 = ''error'' \<and> k2 = ''beats'' \<and> bs = [] \<and> k3 = ''bpm'' \<and> b = Inr 0
               \<and> k4 = ''confidence'' \<and> c = Inr 0 \<and> so = [] \<and> st = 1
           | _ \<Rightarrow> False)
      | Uncaught raised \<Rightarrow> False)"

definition error_message :: "outcome \<Rightarrow> string" where
  "error_message out =
     (case out of
        Exit so se st \<Rightarrow>
          (case se of [JObject ((k1, JString msg) # rest)] \<Rightarrow> msg | _ \<Rightarrow> [])
      | Uncaught raised \<Rightarrow> [])"

definition failure_shape :: "outcome \<Rightarrow> bool" where
  "failure_shape out \<longleftrightarrow> error_shape out \<and> error_message out \<noteq> []"

text \<open>Collaborators for the examples: a command line that parses when it names one file
  and is rejected by argparse otherwise, an activation estimator that raises an exception
  whose message is empty (as \<^verbatim>\<open>raise ValueError()\<close> or a failed bare \<^verbatim>\<open>assert\<close> does),
  one that is interrupted from the keyboard, one that returns, a tracker that returns two
  beats and a tracker that calls \<^verbatim>\<open>sys.exit(3)\<close>.\<close>

definition example_parse_args :: "string list \<Rightarrow> exn + args" where
  "example_parse_args argv =
     (case argv of
        [p] \<Rightarrow> Inr \<lparr>wav_path = p, min_bpm = 55, max_bpm = 215\<rparr>
      | _ \<Rightarrow> Inl (SystemExit 2))"

definition raising_processor :: "string \<Rightarrow> exn + unit" where
  "raising_processor path = Inl (Exception [])"

definition interrupted_processor :: "string \<Rightarrow> exn + unit" where
  "interrupted_processor path = Inl KeyboardInterrupt"

definition example_processor :: "string \<Rightarrow> exn + unit" where
  "example_processor path = Inr ()"

definition example_tracker :: "rat \<Rightarrow> rat \<Rightarrow> rat \<Rightarrow> unit \<Rightarrow> exn + rat list" where
  "example_tracker fps lo hi activations = Inr [0, 1/2]"

definition exiting_tracker :: "rat \<Rightarrow> rat \<Rightarrow> rat \<Rightarrow> unit \<Rightarrow> exn + rat list" where
  "exiting_tracker fps lo hi activations = Inl (SystemExit 3)"

section \<open>Facts about rounding\<close>

text \<open>
  The binary exponent is correct, rounding is monotone and idempotent, every rounded value
  lies on the 53-bit grid of its binade, and two grid values differ by at least one unit
  in the last place.
\<close>

lemma pow2_pos: "0 < (2::rat) powi e"
  by simp

lemma pow2_Suc: "(2::rat) powi (e + 1) = 2 * 2 powi e"
  by (simp add: power_int_add_1)

lemma pow2_Suc': "(2::rat) powi (1 + e) = 2 * 2 powi e"
  using pow2_Suc [of e] by (simp add: add.commute)

lemma pow2_mono: "e1 \<le> e2 \<Longrightarrow> (2::rat) powi e1 \<le> 2 powi e2"
  by (rule power_int_increasing) simp_all

lemma pow2_step: "e1 < e2 \<Longrightarrow> 2 * (2::rat) powi e1 \<le> 2 powi e2"
  using pow2_mono [of "e1 + 1" e2] by (simp add: pow2_Suc)

lemma pow2_less_cancel: "(2::rat) powi e1 < 2 powi e2 \<Longrightarrow> e1 < e2"
  using pow2_mono [of e2 e1] by (cases "e1 < e2") auto

lemma ilog2_bounds:
  assumes "0 < x"
  shows "2 powi ilog2 x \<le> x" and "x < 2 powi (ilog2 x + 1)"
proof -
  obtain p q where pq: "quotient_of x = (p, q)"
    by (cases "quotient_of x")
  have q: "0 < q" using pq by (rule quotient_of_denom_pos)
  have x: "x = of_int p / of_int q" using pq by (rule quotient_of_div)
  have p: "0 < p" using assms q x by (simp add: zero_less_divide_iff)
  define bp bq where "bp = bitlen p" and "bq = bitlen q"
  have bp1: "1 \<le> bp" and bq1: "1 \<le> bq"
    using p q by (simp_all add: bp_def bq_def bitlen_alt_def)
  have "2 ^ nat (bp - 1) \<le> p" "p < 2 ^ nat bp" "2 ^ nat (bq - 1) \<le> q" "q < 2 ^ nat bq"
    using bitlen_bounds [OF p] bitlen_bounds [OF q] by (simp_all add: bp_def bq_def)
  then have P: "(2::rat) ^ nat (bp - 1) \<le> of_int p" "of_int p < (2::rat) ^ nat bp"
    and Q: "(2::rat) ^ nat (bq - 1) \<le> of_int q" "of_int q < (2::rat) ^ nat bq"
    by (metis of_int_le_iff of_int_less_iff of_int_numeral of_int_power)+
  have P': "(2::rat) powi (bp - 1) \<le> of_int p" "of_int p < (2::rat) powi bp"
    and Q': "(2::rat) powi (bq - 1) \<le> of_int q" "of_int q < (2::rat) powi bq"
    using P Q bp1 bq1 by (simp_all add: power_int_def)
  have up: "x < 2 powi (bp - bq + 1)"
  proof -
    have "x * of_int q = of_int p" using x q by simp
    also have "\<dots> < 2 powi bp" by (rule P')
    also have "\<dots> = 2 powi (bp - bq + 1) * 2 powi (bq - 1)"
      by (simp flip: power_int_add)
    also have "\<dots> \<le> 2 powi (bp - bq + 1) * of_int q"
      using Q'(1) by (simp add: mult_left_mono)
    finally show ?thesis using q by simp
  qed
  have lo: "2 powi (bp - bq - 1) < x"
  proof -
    have "(2::rat) powi (bp - bq - 1) * of_int q < 2 powi (bp - bq - 1) * 2 powi bq"
      using Q'(2) by (simp add: mult_strict_left_mono)
    also have "\<dots> = 2 powi (bp - 1)"
      by (simp flip: power_int_add)
    also have "\<dots> \<le> of_int p" by (rule P')
    also have "\<dots> = x * of_int q" using x q by simp
    finally show ?thesis using q by simp
  qed
  have il: "ilog2 x = (if 2 powi (bp - bq) \<le> x then bp - bq else bp - bq - 1)"
    by (simp add: ilog2_def pq bp_def bq_def Let_def)
  show "2 powi ilog2 x \<le> x"
    using lo by (simp add: il)
  show "x < 2 powi (ilog2 x + 1)"
    using up by (simp add: il)
qed

lemma ilog2_unique:
  assumes "2 powi k \<le> x" and "x < 2 powi (k + 1)"
  shows "ilog2 x = k"
proof -
  have x: "0 < x" using assms(1) pow2_pos [of k] by linarith
  have "2 powi ilog2 x < (2::rat) powi (k + 1)"
    using ilog2_bounds(1) [OF x] assms(2) by linarith
  then have a: "ilog2 x < k + 1" by (rule pow2_less_cancel)
  have "2 powi k < (2::rat) powi (ilog2 x + 1)"
    using ilog2_bounds(2) [OF x] assms(1) by linarith
  then have b: "k < ilog2 x + 1" by (rule pow2_less_cancel)
  show ?thesis using a b by simp
qed

lemma rhe_of_int [simp]: "round_half_even (of_int k) = k"
  by (simp add: round_half_even_def)

lemma rhe_floor_le: "\<lfloor>m\<rfloor> \<le> round_half_even m"
  by (simp add: round_half_even_def Let_def)

lemma rhe_le_floor1: "round_half_even m \<le> \<lfloor>m\<rfloor> + 1"
  by (simp add: round_half_even_def Let_def)

lemma rhe_mono:
  assumes "a \<le> b"
  shows "round_half_even a \<le> round_half_even b"
proof (cases "\<lfloor>a\<rfloor> = \<lfloor>b\<rfloor>")
  case True
  then show ?thesis
    using assms by (auto simp add: round_half_even_def Let_def)
next
  case False
  then have "\<lfloor>a\<rfloor> < \<lfloor>b\<rfloor>"
    using floor_mono [OF assms] by simp
  then show ?thesis
    using rhe_le_floor1 [of a] rhe_floor_le [of b] by linarith
qed

lemma fl64_zero [simp]: "fl64 0 = 0"
  by (simp add: fl64_def)

lemma fl64_minus: "fl64 (- x) = - fl64 x"
  by (simp add: fl64_def Let_def)

lemma fl64_pos_eq:
  "0 < x \<Longrightarrow> fl64 x = of_int (round_half_even (x / 2 powi (ilog2 x - 52))) * 2 powi (ilog2 x - 52)"
  by (simp add: fl64_def Let_def)

lemma pow2_split: "(2::rat) powi k = 2 ^ 52 * 2 powi (k - 52)"
proof -
  have "(2::rat) powi k = 2 powi (52 + (k - 52))" by simp
  also have "\<dots> = 2 powi 52 * 2 powi (k - 52)"
    by (subst power_int_add) simp_all
  finally show ?thesis by simp
qed

lemma significand_bounds:
  assumes "0 < x"
  shows "2 ^ 52 \<le> round_half_even (x / 2 powi (ilog2 x - 52))"
    and "round_half_even (x / 2 powi (ilog2 x - 52)) \<le> 2 ^ 53"
proof -
  let ?e = "ilog2 x - 52"
  let ?m = "x / 2 powi ?e"
  have lo: "2 ^ 52 * 2 powi ?e \<le> x"
    using ilog2_bounds(1) [OF assms] pow2_split [of "ilog2 x"] by simp
  have hi: "x < 2 ^ 53 * 2 powi ?e"
    using ilog2_bounds(2) [OF assms] pow2_split [of "ilog2 x"] by (simp add: pow2_Suc)
  have "rat_of_int (2 ^ 52) \<le> ?m"
    using lo by (simp add: pos_le_divide_eq)
  from rhe_mono [OF this] show "2 ^ 52 \<le> round_half_even ?m"
    by (simp only: rhe_of_int)
  have "?m \<le> rat_of_int (2 ^ 53)"
    using hi by (simp add: pos_divide_le_eq)
  from rhe_mono [OF this] show "round_half_even ?m \<le> 2 ^ 53"
    by (simp only: rhe_of_int)
qed

lemma fl64_bounds:
  assumes "0 < x"
  shows "2 powi ilog2 x \<le> fl64 x" and "fl64 x \<le> 2 powi (ilog2 x + 1)"
proof -
  let ?e = "ilog2 x - 52"
  let ?r = "round_half_even (x / 2 powi ?e)"
  have "rat_of_int (2 ^ 52) \<le> of_int ?r" and "rat_of_int ?r \<le> of_int (2 ^ 53)"
    using significand_bounds [OF assms] by (simp_all only: of_int_le_iff)
  then have "(2::rat) ^ 52 * 2 powi ?e \<le> of_int ?r * 2 powi ?e"
    and "rat_of_int ?r * 2 powi ?e \<le> 2 ^ 53 * 2 powi ?e"
    by (simp_all add: mult_right_mono)
  then show "2 powi ilog2 x \<le> fl64 x" and "fl64 x \<le> 2 powi (ilog2 x + 1)"
    using pow2_split [of "ilog2 x"] by (simp_all add: fl64_pos_eq [OF assms] pow2_Suc)
qed

lemma fl64_pos: "0 < x \<Longrightarrow> 0 < fl64 x"
  using fl64_bounds(1) [of x] pow2_pos [of "ilog2 x"] by linarith

lemma fl64_nonneg: "0 \<le> x \<Longrightarrow> 0 \<le> fl64 x"
  using fl64_pos [of x] by (cases "x = 0") auto

lemma fl64_neg: "x < 0 \<Longrightarrow> fl64 x < 0"
  using fl64_pos [of "- x"] by (simp add: fl64_minus)

lemma ilog2_mono:
  assumes "0 < x" and "x \<le> y"
  shows "ilog2 x \<le> ilog2 y"
proof -
  have "0 < y" using assms by simp
  have "2 powi ilog2 x < (2::rat) powi (ilog2 y + 1)"
    using ilog2_bounds(1) [OF assms(1)] ilog2_bounds(2) [OF \<open>0 < y\<close>] assms(2) by linarith
  then show ?thesis
    using pow2_less_cancel by fastforce
qed

lemma fl64_mono_pos:
  assumes "0 < x" and "x \<le> y"
  shows "fl64 x \<le> fl64 y"
proof -
  have y: "0 < y" using assms by simp
  show ?thesis
  proof (cases "ilog2 x = ilog2 y")
    case True
    let ?e = "ilog2 y - 52"
    have "x / 2 powi ?e \<le> y / 2 powi ?e"
      using assms(2) by (simp add: divide_right_mono)
    then have "rat_of_int (round_half_even (x / 2 powi ?e)) \<le> of_int (round_half_even (y / 2 powi ?e))"
      using rhe_mono by simp
    then show ?thesis
      by (simp add: fl64_pos_eq [OF assms(1)] fl64_pos_eq [OF y] True mult_right_mono)
  next
    case False
    then have "ilog2 x + 1 \<le> ilog2 y"
      using ilog2_mono [OF assms] by simp
    then have "(2::rat) powi (ilog2 x + 1) \<le> 2 powi ilog2 y"
      by (rule pow2_mono)
    then show ?thesis
      using fl64_bounds(2) [OF assms(1)] fl64_bounds(1) [OF y] by linarith
  qed
qed

lemma fl64_mono:
  assumes "x \<le> y"
  shows "fl64 x \<le> fl64 y"
proof -
  consider "0 < x" | "x \<le> 0" "0 \<le> y" | "y < 0"
    using assms by linarith
  then show ?thesis
  proof cases
    case 1
    then show ?thesis using assms by (rule fl64_mono_pos)
  next
    case 2
    have "fl64 x \<le> 0"
      using 2(1) fl64_nonneg [of "- x"] by (simp add: fl64_minus)
    then show ?thesis
      using fl64_nonneg [OF 2(2)] by linarith
  next
    case 3
    then have "fl64 (- y) \<le> fl64 (- x)"
      using assms by (intro fl64_mono_pos) simp_all
    then show ?thesis by (simp add: fl64_minus)
  qed
qed

lemma fl64_pow2: "fl64 (2 powi k) = 2 powi k"
proof -
  have pos: "0 < (2::rat) powi k" by simp
  have "(2::rat) powi k < 2 powi (k + 1)"
    by (simp add: pow2_Suc)
  then have "ilog2 (2 powi k) = k"
    by (intro ilog2_unique) simp_all
  then have "fl64 (2 powi k) = of_int (round_half_even (2 powi k / 2 powi (k - 52))) * 2 powi (k - 52)"
    by (simp add: fl64_pos_eq [OF pos])
  also have "(2::rat) powi k / 2 powi (k - 52) = rat_of_int (2 ^ 52)"
    by (subst pow2_split [of k]) simp
  finally show ?thesis
    by (simp only: rhe_of_int) (simp add: pow2_split [of k])
qed

lemma pow2_add53: "(2::rat) powi (e + 53) = 2 ^ 53 * 2 powi e"
  by (subst power_int_add) simp_all

lemma pow2_add52: "(2::rat) powi (e + 52) = 2 ^ 52 * 2 powi e"
  by (subst power_int_add) simp_all

lemma pow2_add_numeral:
  "(2::rat) powi (53 + e) = 2 ^ 53 * 2 powi e" "(2::rat) powi (52 + e) = 2 ^ 52 * 2 powi e"
  using pow2_add53 [of e] pow2_add52 [of e] by (simp_all add: add.commute)

lemma fl64_grid:
  assumes "2 ^ 52 \<le> r" and "r \<le> 2 ^ 53"
  shows "fl64 (of_int r * 2 powi e) = of_int r * 2 powi e"
proof (cases "r = 2 ^ 53")
  case True
  have "rat_of_int r * 2 powi e = 2 powi (e + 53)"
    unfolding True pow2_add53 by simp
  then show ?thesis
    by (simp only: fl64_pow2)
next
  case False
  let ?y = "rat_of_int r * 2 powi e"
  have r: "rat_of_int (2 ^ 52) \<le> of_int r" "rat_of_int r < of_int (2 ^ 53)"
    using assms False by (simp_all only: of_int_le_iff of_int_less_iff)
  have lo: "2 powi (e + 52) \<le> ?y"
    using r(1) by (simp add: pow2_add_numeral pow2_add52 mult_right_mono)
  have hi: "?y < 2 powi (e + 52 + 1)"
    using r(2) by (simp add: pow2_add_numeral pow2_add53)
  have pos: "0 < ?y"
    using lo pow2_pos [of "e + 52"] by linarith
  have "ilog2 ?y = e + 52"
    using lo hi by (rule ilog2_unique)
  then show ?thesis
    by (simp add: fl64_pos_eq [OF pos])
qed

lemma fl64_idem [simp]: "fl64 (fl64 x) = fl64 x"
proof -
  have pos: "fl64 (fl64 x) = fl64 x" if "0 < x" for x
    using significand_bounds [OF that] by (simp add: fl64_pos_eq [OF that] fl64_grid)
  consider "0 < x" | "x = 0" | "0 < - x"
    by linarith
  then show ?thesis
  proof cases
    case 1
    then show ?thesis by (rule pos)
  next
    case 2
    then show ?thesis by simp
  next
    case 3
    from pos [OF this] show ?thesis by (simp add: fl64_minus)
  qed
qed

lemma fl64_normal:
  assumes "0 < x"
  obtains r e where "2 ^ 52 \<le> r" and "r < 2 ^ 53" and "fl64 x = of_int r * 2 powi e"
proof (cases "round_half_even (x / 2 powi (ilog2 x - 52)) = 2 ^ 53")
  case True
  have "fl64 x = 2 ^ 53 * 2 powi (ilog2 x - 52)"
    by (simp add: fl64_pos_eq [OF assms] True)
  also have "\<dots> = rat_of_int (2 ^ 52) * 2 powi (ilog2 x - 52 + 1)"
    using pow2_Suc [of "ilog2 x - 52"] by simp
  finally show ?thesis
    by (rule that [rotated 2]) simp_all
next
  case False
  then show ?thesis
    using significand_bounds [OF assms] fl64_pos_eq [OF assms]
    by (intro that [of "round_half_even (x / 2 powi (ilog2 x - 52))" "ilog2 x - 52"]) simp_all
qed

lemma grid_succ:
  assumes r: "2 ^ 52 \<le> r" "r < 2 ^ 53" and a: "2 ^ 52 \<le> a" "a < 2 ^ 53"
    and lt: "rat_of_int a * 2 powi ea < of_int r * 2 powi e"
  shows "rat_of_int (a + 1) * 2 powi ea \<le> of_int r * 2 powi e"
proof -
  define P Q where "P = (2::rat) powi e" and "Q = (2::rat) powi ea"
  have P: "0 < P" and Q: "0 < Q" by (simp_all add: P_def Q_def)
  have rP: "2 ^ 52 * P \<le> of_int r * P" "rat_of_int r * P \<le> 2 ^ 53 * P"
    using r P by (simp_all add: mult_right_mono)
  have aQ: "2 ^ 52 * Q \<le> of_int a * Q" "rat_of_int (a + 1) * Q \<le> 2 ^ 53 * Q"
    using a Q by (simp_all add: mult_right_mono)
  consider "e < ea" | "e = ea" | "ea < e" by linarith
  then have "rat_of_int (a + 1) * Q \<le> of_int r * P"
  proof cases
    case 1
    then have "2 * P \<le> Q" unfolding P_def Q_def by (rule pow2_step)
    then have False using rP aQ lt [folded P_def Q_def] by simp
    then show ?thesis ..
  next
    case 2
    then have "a < r" using lt Q by (simp add: P_def Q_def)
    then have "rat_of_int (a + 1) \<le> of_int r" by simp
    then show ?thesis using Q 2 by (simp add: P_def Q_def mult_right_mono)
  next
    case 3
    then have "2 * Q \<le> P" unfolding P_def Q_def by (rule pow2_step)
    then show ?thesis using rP aQ by simp
  qed
  then show ?thesis by (simp add: P_def Q_def)
qed

lemma grid_pred:
  assumes r: "2 ^ 52 \<le> r" "r < 2 ^ 53" and b: "2 ^ 52 < b" "b \<le> 2 ^ 53"
    and lt: "rat_of_int r * 2 powi e < of_int b * 2 powi eb"
  shows "rat_of_int r * 2 powi e \<le> of_int (b - 1) * 2 powi eb"
proof -
  define P Q where "P = (2::rat) powi e" and "Q = (2::rat) powi eb"
  have P: "0 < P" and Q: "0 < Q" by (simp_all add: P_def Q_def)
  have rP: "2 ^ 52 * P \<le> of_int r * P" "rat_of_int r * P \<le> 2 ^ 53 * P"
    using r P by (simp_all add: mult_right_mono)
  have bQ: "2 ^ 52 * Q \<le> of_int (b - 1) * Q" "rat_of_int b * Q \<le> 2 ^ 53 * Q"
    using b Q by (simp_all add: mult_right_mono)
  consider "e < eb" | "e = eb" | "eb < e" by linarith
  then have "rat_of_int r * P \<le> of_int (b - 1) * Q"
  proof cases
    case 1
    then have "2 * P \<le> Q" unfolding P_def Q_def by (rule pow2_step)
    then show ?thesis using rP bQ by simp
  next
    case 2
    then have "r < b" using lt Q by (simp add: P_def Q_def)
    then have "rat_of_int r \<le> of_int (b - 1)" by simp
    then show ?thesis using Q 2 by (simp add: P_def Q_def mult_right_mono)
  next
    case 3
    then have "2 * Q \<le> P" unfolding P_def Q_def by (rule pow2_step)
    then have False using rP bQ lt [folded P_def Q_def] by simp
    then show ?thesis ..
  qed
  then show ?thesis by (simp add: P_def Q_def)
qed

lemma fl64_lit_0_2: "fl64 (2/10) = 3602879701896397 / 18014398509481984"
  by code_simp

lemma above_0_2:
  assumes "fl64 (2/10) < fl64 z"
  shows "7205759403792795 / 36028797018963968 \<le> fl64 z"
proof -
  have "0 < fl64 z" using assms unfolding fl64_lit_0_2 by simp
  then have "0 < z" using fl64_nonneg [of "- z"] by (cases "0 < z") (simp_all add: fl64_minus)
  then obtain r e where r: "2 ^ 52 \<le> r" "r < 2 ^ 53" and z: "fl64 z = of_int r * 2 powi e"
    by (rule fl64_normal)
  have "rat_of_int 7205759403792794 * 2 powi (- 55) < of_int r * 2 powi e"
    using assms unfolding fl64_lit_0_2 by (simp add: z power_int_minus_divide)
  then have "rat_of_int (7205759403792794 + 1) * 2 powi (- 55) \<le> of_int r * 2 powi e"
    by (intro grid_succ r) simp_all
  then show ?thesis
    by (simp add: z power_int_minus_divide)
qed

lemma below_2:
  assumes "0 < z" and "fl64 z < 2"
  shows "fl64 z \<le> 9007199254740991 / 4503599627370496"
proof -
  obtain r e where r: "2 ^ 52 \<le> r" "r < 2 ^ 53" and z: "fl64 z = of_int r * 2 powi e"
    using assms(1) by (rule fl64_normal)
  have "rat_of_int r * 2 powi e < of_int 9007199254740992 * 2 powi (- 52)"
    using assms(2) by (simp add: z power_int_minus_divide)
  then have "rat_of_int r * 2 powi e \<le> of_int (9007199254740992 - 1) * 2 powi (- 52)"
    by (intro grid_pred r) simp_all
  then show ?thesis
    by (simp add: z power_int_minus_divide)
qed

section \<open>Facts about the intervals and their median\<close>

text \<open>
  Every interval is a rounded value. A rounded value inside the band is at least the
  binary64 successor of 0.2 and at most the binary64 predecessor of 2.0; so is the median
  of such values, and 60.0 divided by it lies strictly between 30 and 300.
\<close>

lemma np_diff_fixed: "d \<in> set (np_diff beats) \<Longrightarrow> fl64 d = d"
  by (auto simp add: np_diff_def fsub_def in_set_zip)

lemma band_bounds:
  assumes "fl64 d = d" and "fl64 (2/10) < d" and "d < 2"
  shows "7205759403792795 / 36028797018963968 \<le> d" and "d \<le> 9007199254740991 / 4503599627370496"
proof -
  show lo: "7205759403792795 / 36028797018963968 \<le> d"
    using above_0_2 [of d] assms(1,2) by simp
  then have "0 < d" by simp
  then show "d \<le> 9007199254740991 / 4503599627370496"
    using below_2 [of d] assms(1,3) by simp
qed

lemma fl64_band_lo: "fl64 (7205759403792795 / 36028797018963968) = 7205759403792795 / 36028797018963968"
  by code_simp

lemma fl64_band_hi: "fl64 (9007199254740991 / 4503599627370496) = 9007199254740991 / 4503599627370496"
  by code_simp

lemma fl64_band_lo2: "fl64 (7205759403792795 / 18014398509481984) = 7205759403792795 / 18014398509481984"
  by code_simp

lemma fl64_band_hi2: "fl64 (9007199254740991 / 2251799813685248) = 9007199254740991 / 2251799813685248"
  by code_simp

lemma fl64_60_lo: "fl64 (60 / (9007199254740991 / 4503599627370496)) = 8444249301319681 / 281474976710656"
  by code_simp

lemma fl64_60_hi: "fl64 (60 / (7205759403792795 / 36028797018963968)) = 5277655813324799 / 17592186044416"
  by code_simp

lemma average_bounds:
  assumes "7205759403792795 / 36028797018963968 \<le> x" "x \<le> 9007199254740991 / 4503599627370496"
    and "7205759403792795 / 36028797018963968 \<le> y" "y \<le> 9007199254740991 / 4503599627370496"
  shows "7205759403792795 / 36028797018963968 \<le> fl64 (fadd x y / 2)"
    and "fl64 (fadd x y / 2) \<le> 9007199254740991 / 4503599627370496"
proof -
  have "7205759403792795 / 18014398509481984 \<le> x + y"
    using assms by linarith
  from fl64_mono [OF this] have "7205759403792795 / 18014398509481984 \<le> fadd x y"
    by (simp only: fl64_band_lo2 fadd_def)
  then have "7205759403792795 / 36028797018963968 \<le> fadd x y / 2"
    by simp
  from fl64_mono [OF this] show "7205759403792795 / 36028797018963968 \<le> fl64 (fadd x y / 2)"
    by (simp only: fl64_band_lo)
  have "x + y \<le> 9007199254740991 / 2251799813685248"
    using assms by linarith
  from fl64_mono [OF this] have "fadd x y \<le> 9007199254740991 / 2251799813685248"
    by (simp only: fl64_band_hi2 fadd_def)
  then have "fadd x y / 2 \<le> 9007199254740991 / 4503599627370496"
    by simp
  from fl64_mono [OF this] show "fl64 (fadd x y / 2) \<le> 9007199254740991 / 4503599627370496"
    by (simp only: fl64_band_hi)
qed

lemma bpm_bounds:
  assumes "7205759403792795 / 36028797018963968 \<le> m" and "m \<le> 9007199254740991 / 4503599627370496"
  shows "30 < fl64 (60 / m)" and "fl64 (60 / m) < 300"
proof -
  have m: "0 < m" using assms(1) by simp
  have "60 / (9007199254740991 / 4503599627370496) \<le> 60 / m"
    using assms(2) m by (intro divide_left_mono) simp_all
  from fl64_mono [OF this] have "8444249301319681 / 281474976710656 \<le> fl64 (60 / m)"
    by (simp only: fl64_60_lo)
  then show "30 < fl64 (60 / m)"
    by simp
  have "60 / m \<le> 60 / (7205759403792795 / 36028797018963968)"
    using assms(1) m by (intro divide_left_mono) simp_all
  from fl64_mono [OF this] have "fl64 (60 / m) \<le> 5277655813324799 / 17592186044416"
    by (simp only: fl64_60_hi)
  then show "fl64 (60 / m) < 300"
    by simp
qed

lemma slice_one: "i < length s \<Longrightarrow> take (Suc 0) (drop i s) = [s ! i]"
  by (simp add: take_Suc_conv_app_nth)

lemma slice_two: "Suc i < length s \<Longrightarrow> take 2 (drop i s) = [s ! i, s ! Suc i]"
  by (simp add: numeral_2_eq_2 take_Suc_conv_app_nth)

lemma np_mean_one: "np_mean [x] = Inr (fl64 x)"
  by (simp add: np_mean_def np_sum_def fdiv_def)

lemma np_mean_two: "np_mean [x, y] = Inr (fl64 (fadd x y / 2))"
  by (simp add: np_mean_def np_sum_def fdiv_def)

lemma np_median_odd:
  assumes "odd (length a)"
  shows "np_median a = Inr (fl64 (sort a ! (length a div 2)))"
proof -
  have "a \<noteq> []"
    using assms by auto
  then have "length a div 2 < length (sort a)"
    by simp
  then show ?thesis
    using assms \<open>a \<noteq> []\<close>
    by (simp add: np_median_def Let_def slice_one np_mean_one odd_iff_mod_2_eq_one)
qed

lemma np_median_even:
  assumes "even (length a)" and "a \<noteq> []"
  shows "np_median a = Inr (fl64 (fadd (sort a ! (length a div 2 - 1)) (sort a ! (length a div 2)) / 2))"
proof -
  obtain k where k: "length a = 2 * k" using assms(1) by (elim evenE)
  have "0 < k" using assms(2) k by (cases k) simp_all
  then have "Suc (k - 1) < length (sort a)" and "Suc (k - 1) = k"
    using k by simp_all
  from slice_two [OF this(1)] this(2) show ?thesis
    using \<open>0 < k\<close> by (simp add: np_median_def Let_def k np_mean_two)
qed

lemma np_median_spec:
  assumes "a \<noteq> []" and "\<forall>d \<in> set a. fl64 d = d"
  shows "np_median a = Inr (median_spec a)"
proof (cases "even (length a)")
  case True
  then show ?thesis
    using assms(1) by (simp add: np_median_even median_spec_def Let_def)
next
  case False
  then have "length a div 2 < length (sort a)"
    by (cases a) simp_all
  then have "sort a ! (length a div 2) \<in> set (sort a)"
    by (rule nth_mem)
  then have "fl64 (sort a ! (length a div 2)) = sort a ! (length a div 2)"
    using assms(2) by simp
  then show ?thesis
    using False by (simp add: np_median_odd median_spec_def Let_def)
qed

lemma median_spec_bounds:
  assumes "a \<noteq> []"
    and "\<forall>d \<in> set a. 7205759403792795 / 36028797018963968 \<le> d \<and> d \<le> 9007199254740991 / 4503599627370496"
  shows "7205759403792795 / 36028797018963968 \<le> median_spec a"
    and "median_spec a \<le> 9007199254740991 / 4503599627370496"
proof -
  have mem: "sort a ! i \<in> set a" if "i < length a" for i
    using nth_mem [of i "sort a"] that by simp
  have n: "0 < length a" using assms(1) by simp
  have i1: "length a div 2 < length a" and i0: "length a div 2 - 1 < length a"
    using n by (simp_all add: less_imp_diff_less)
  note b1 = assms(2) [rule_format, OF mem [OF i1]]
  note b0 = assms(2) [rule_format, OF mem [OF i0]]
  show "7205759403792795 / 36028797018963968 \<le> median_spec a"
    using average_bounds(1) [of "sort a ! (length a div 2 - 1)" "sort a ! (length a div 2)"] b0 b1
    by (simp add: median_spec_def Let_def)
  show "median_spec a \<le> 9007199254740991 / 4503599627370496"
    using average_bounds(2) [of "sort a ! (length a div 2 - 1)" "sort a ! (length a div 2)"] b0 b1
    by (simp add: median_spec_def Let_def)
qed

lemma valid_intervals_facts:
  assumes "d \<in> set (filter (\<lambda>d. fl64 (2/10) < d \<and> d < 2) (np_diff beats))"
  shows "fl64 d = d"
    and "7205759403792795 / 36028797018963968 \<le> d \<and> d \<le> 9007199254740991 / 4503599627370496"
proof -
  show f: "fl64 d = d" using assms np_diff_fixed [of d beats] by simp
  show "7205759403792795 / 36028797018963968 \<le> d \<and> d \<le> 9007199254740991 / 4503599627370496"
    using band_bounds [OF f] assms by simp
qed

lemma median_path:
  assumes "2 \<le> length beats"
    and "filter (\<lambda>d. fl64 (2/10) < d \<and> d < 2) (np_diff beats) \<noteq> []"
  shows "np_median (filter (\<lambda>d. fl64 (2/10) < d \<and> d < 2) (np_diff beats))
           = Inr (median_spec (filter (\<lambda>d. fl64 (2/10) < d \<and> d < 2) (np_diff beats)))"
    and "calculate_bpm_from_beats beats
           = Inr (fl64 (60 / median_spec (filter (\<lambda>d. fl64 (2/10) < d \<and> d < 2) (np_diff beats))))"
    and "7205759403792795 / 36028797018963968
           \<le> median_spec (filter (\<lambda>d. fl64 (2/10) < d \<and> d < 2) (np_diff beats))"
    and "median_spec (filter (\<lambda>d. fl64 (2/10) < d \<and> d < 2) (np_diff beats))
           \<le> 9007199254740991 / 4503599627370496"
proof -
  let ?v = "filter (\<lambda>d. fl64 (2/10) < d \<and> d < 2) (np_diff beats)"
  have fx: "\<forall>d \<in> set ?v. fl64 d = d"
    using valid_intervals_facts(1) by blast
  have bd: "\<forall>d \<in> set ?v. 7205759403792795 / 36028797018963968 \<le> d \<and> d \<le> 9007199254740991 / 4503599627370496"
    using valid_intervals_facts(2) by blast
  show med: "np_median ?v = Inr (median_spec ?v)"
    using assms(2) fx by (rule np_median_spec)
  show lo: "7205759403792795 / 36028797018963968 \<le> median_spec ?v"
    and "median_spec ?v \<le> 9007199254740991 / 4503599627370496"
    using median_spec_bounds [OF assms(2) bd] by simp_all
  then have "median_spec ?v \<noteq> 0" by auto
  then show "calculate_bpm_from_beats beats = Inr (fl64 (60 / median_spec ?v))"
    using assms med by (simp add: calculate_bpm_from_beats_def Let_def fdiv_def)
qed

lemma fl64_lit_0_4: "fl64 (4/10) = 3602879701896397 / 9007199254740992" by code_simp
lemma fl64_lit_0_9: "fl64 (9/10) = 8106479329266893 / 9007199254740992" by code_simp
lemma fl64_lit_1_4: "fl64 (14/10) = 3152519739159347 / 2251799813685248" by code_simp
lemma fl64_lit_0_2001: "fl64 (2001/10000) = 3604681141747345 / 18014398509481984" by code_simp
lemma fl64_lit_1_9999: "fl64 (19999/10000) = 9006748894778255 / 4503599627370496" by code_simp

lemma band_lo_gt: "7205759403792795 / 36028797018963968 \<le> x \<Longrightarrow> fl64 (2/10) < x"
  unfolding fl64_lit_0_2 by simp

lemma band_hi_lt: "x \<le> 9007199254740991 / 4503599627370496 \<Longrightarrow> x < (2::rat)"
  by simp

lemma np_diff_pair: "np_diff [a, b] = [fl64 (b - a)]"
  by (simp add: np_diff_def fsub_def)

lemma np_diff_shift: "np_diff (map (\<lambda>t. t + c) beats) = np_diff beats"
  by (simp add: np_diff_def drop_map map_butlast [symmetric] zip_map_map fsub_def case_prod_unfold)

lemma np_diff_nth:
  "np_diff beats = map (\<lambda>i. fsub (beats ! Suc i) (beats ! i)) [0..<length beats - 1]"
  by (rule nth_equalityI) (simp_all add: np_diff_def nth_butlast)

lemma estimator_on_retained:
  assumes "2 \<le> length beats"
  shows "calculate_bpm_from_beats beats =
     (if filter (\<lambda>d. fl64 (2/10) < d \<and> d < 2) (np_diff beats) = [] then Inr 0
      else fdiv 60 (median_spec (filter (\<lambda>d. fl64 (2/10) < d \<and> d < 2) (np_diff beats))))"
proof (cases "filter (\<lambda>d. fl64 (2/10) < d \<and> d < 2) (np_diff beats) = []")
  case True
  then show ?thesis
    using assms by (simp add: calculate_bpm_from_beats_def)
next
  case False
  let ?m = "median_spec (filter (\<lambda>d. fl64 (2/10) < d \<and> d < 2) (np_diff beats))"
  have "?m \<noteq> 0"
    using median_path(3) [OF assms False] by auto
  then have "fdiv 60 ?m = Inr (fl64 (60 / ?m))"
    by (simp add: fdiv_def)
  then show ?thesis
    using median_path(2) [OF assms False] False by simp
qed

lemma count_list_filter: "count_list (filter P xs) x = (if P x then count_list xs x else 0)"
  by (induction xs) auto

lemma fdiv_60_0_2001: "fdiv 60 (fl64 (2001/10000)) = Inr (2637509152086357 / 8796093022208)"
  by code_simp

lemma fdiv_60_1_9999: "fdiv 60 (fl64 (19999/10000)) = Inr (8444671534896425 / 281474976710656)"
  by code_simp

lemma bpm_two_timestamps:
  "calculate_bpm_from_beats [t0, t1] =
     (if fl64 (2/10) < fsub t1 t0 \<and> fsub t1 t0 < 2 then fdiv 60 (fsub t1 t0) else Inr 0)"
  by (simp add: calculate_bpm_from_beats_def np_diff_pair np_median_def Let_def np_mean_def
      np_sum_def fdiv_def fsub_def)

section \<open>Properties of the tempo estimator\<close>

text \<open>
  C1. For every beat-timestamp sequence with at least 2 entries whose filtered inter-beat
  intervals (those strictly between 0.2 and 2.0 seconds) are not empty, the estimator
  returns exactly 60.0 divided by the median of the filtered intervals, where the median
  of an even number of values is the average of the two middle values of the sorted list.
  The median that \<open>np_median\<close> computes (partition, slice, mean) is the median of the
  specification, \<open>median_spec\<close>.
\<close>

theorem bpm_is_sixty_over_median:
  assumes "2 \<le> length beats"
    and "filter (\<lambda>d. fl64 (2/10) < d \<and> d < 2) (np_diff beats) \<noteq> []"
  shows "calculate_bpm_from_beats beats
           = fdiv 60 (median_spec (filter (\<lambda>d. fl64 (2/10) < d \<and> d < 2) (np_diff beats)))
         \<and> np_median (filter (\<lambda>d. fl64 (2/10) < d \<and> d < 2) (np_diff beats))
           = Inr (median_spec (filter (\<lambda>d. fl64 (2/10) < d \<and> d < 2) (np_diff beats)))"
proof -
  let ?m = "median_spec (filter (\<lambda>d. fl64 (2/10) < d \<and> d < 2) (np_diff beats))"
  have "?m \<noteq> 0"
    using median_path(3) [OF assms] by auto
  then have "fdiv 60 ?m = Inr (fl64 (60 / ?m))"
    by (simp add: fdiv_def)
  then show ?thesis
    using median_path(1,2) [OF assms] by simp
qed

theorem bpm_is_sixty_over_median_witness:
  "filter (\<lambda>d. fl64 (2/10) < d \<and> d < 2) (np_diff [0, 1/2, 5/4, 4, 5]) = [1/2, 3/4, 1]
   \<and> median_spec [1/2, 3/4, 1] = 3/4
   \<and> calculate_bpm_from_beats [0, 1/2, 5/4, 4, 5] = Inr 80
   \<and> filter (\<lambda>d. fl64 (2/10) < d \<and> d < 2) (np_diff [0, 1/2, 5/4]) = [1/2, 3/4]
   \<and> median_spec [1/2, 3/4] = 5/8
   \<and> calculate_bpm_from_beats [0, 1/2, 5/4] = Inr 96"
proof -
  have f1: "filter (\<lambda>d. fl64 (2/10) < d \<and> d < 2) (np_diff [0, 1/2, 5/4, 4, 5]) = [1/2, 3/4, 1]"
    by code_simp
  have m1: "median_spec [1/2, 3/4, 1] = 3/4"
    by code_simp
  have d1: "fdiv 60 (3/4) = Inr 80"
    by code_simp
  have f2: "filter (\<lambda>d. fl64 (2/10) < d \<and> d < 2) (np_diff [0, 1/2, 5/4]) = [1/2, 3/4]"
    by code_simp
  have m2: "median_spec [1/2, 3/4] = 5/8"
    by code_simp
  have d2: "fdiv 60 (5/8) = Inr 96"
    by code_simp
  have "calculate_bpm_from_beats [0, 1/2, 5/4, 4, 5] = Inr 80"
    using bpm_is_sixty_over_median [of "[0, 1/2, 5/4, 4, 5]"] by (simp only: f1 m1 d1) simp
  moreover have "calculate_bpm_from_beats [0, 1/2, 5/4] = Inr 96"
    using bpm_is_sixty_over_median [of "[0, 1/2, 5/4]"] by (simp only: f2 m2 d2) simp
  ultimately show ?thesis
    using f1 m1 f2 m2 by simp
qed

text \<open>
  C2. For every beat-timestamp sequence of length strictly less than 2 (empty or
  singleton), the estimator returns exactly 0.0.
\<close>

theorem short_sequence_returns_zero:
  "length beats < 2 \<Longrightarrow> calculate_bpm_from_beats beats = Inr 0"
  by (simp add: calculate_bpm_from_beats_def)

theorem short_sequence_returns_zero_witness:
  "length [1/2 :: rat] < 2 \<and> calculate_bpm_from_beats [1/2] = Inr 0
   \<and> calculate_bpm_from_beats [] = Inr 0"
  using short_sequence_returns_zero [of "[1/2]"] short_sequence_returns_zero [of "[]"]
  by simp

text \<open>
  C3. For every beat-timestamp sequence of length at least 2 in which every inter-beat
  interval lies outside the open interval (0.2, 2.0) seconds, the estimator returns
  exactly 0.0. The bound 0.2 is the binary64 value of the literal, as in the code.
\<close>

theorem no_valid_interval_returns_zero:
  assumes "2 \<le> length beats"
    and "\<forall>d \<in> set (np_diff beats). \<not> (fl64 (2/10) < d \<and> d < 2)"
  shows "calculate_bpm_from_beats beats = Inr 0"
proof -
  have "filter (\<lambda>d. fl64 (2/10) < d \<and> d < 2) (np_diff beats) = []"
    using assms(2) by (simp add: filter_empty_conv)
  then show ?thesis
    using assms(1) by (simp add: calculate_bpm_from_beats_def)
qed

theorem no_valid_interval_returns_zero_witness:
  "np_diff [0, 1/8, 5, 5, 4] = [1/8, 39/8, 0, -1]
   \<and> calculate_bpm_from_beats [0, 1/8, 5, 5, 4] = Inr 0"
proof -
  have d: "np_diff [0, 1/8, 5, 5, 4] = [1/8, 39/8, 0, -1]"
    by code_simp
  have c: "fl64 (2/10) = 3602879701896397 / 18014398509481984"
    by code_simp
  have h1: "2 \<le> length [0, 1/8, 5, 5, 4 :: rat]"
    by simp
  have h2: "\<forall>d \<in> set (np_diff [0, 1/8, 5, 5, 4]). \<not> (fl64 (2/10) < d \<and> d < 2)"
    unfolding d c by simp
  show ?thesis
    using no_valid_interval_returns_zero [OF h1 h2] d by simp
qed

text \<open>
  C4. The band filter uses strict inequalities on both ends. For every timestamp sequence
  the intervals are the rounded differences of consecutive timestamps, and the estimator
  computes its result from the retained intervals only: 0.0 when none is retained,
  otherwise 60.0 divided by their median. An interval equal to exactly 0.2 s or exactly
  2.0 s never occurs among the retained intervals, and every interval of 0.2001 s or of
  1.9999 s is retained. In particular two timestamps that are 0.2 s or 2.0 s apart give
  0.0, and two timestamps that are 0.2001 s or 1.9999 s apart give 60.0 divided by that
  interval.
\<close>

theorem band_boundaries:
  "np_diff beats = map (\<lambda>i. fsub (beats ! Suc i) (beats ! i)) [0..<length beats - 1]
   \<and> (2 \<le> length beats \<longrightarrow>
        calculate_bpm_from_beats beats =
          (if filter (\<lambda>d. fl64 (2/10) < d \<and> d < 2) (np_diff beats) = [] then Inr 0
           else fdiv 60 (median_spec (filter (\<lambda>d. fl64 (2/10) < d \<and> d < 2) (np_diff beats)))))
   \<and> count_list (filter (\<lambda>d. fl64 (2/10) < d \<and> d < 2) (np_diff beats)) (fl64 (2/10)) = 0
   \<and> count_list (filter (\<lambda>d. fl64 (2/10) < d \<and> d < 2) (np_diff beats)) 2 = 0
   \<and> count_list (filter (\<lambda>d. fl64 (2/10) < d \<and> d < 2) (np_diff beats)) (fl64 (2001/10000))
       = count_list (np_diff beats) (fl64 (2001/10000))
   \<and> count_list (filter (\<lambda>d. fl64 (2/10) < d \<and> d < 2) (np_diff beats)) (fl64 (19999/10000))
       = count_list (np_diff beats) (fl64 (19999/10000))
   \<and> (fsub t1 t0 = fl64 (2/10) \<or> fsub t1 t0 = 2 \<longrightarrow> calculate_bpm_from_beats [t0, t1] = Inr 0)
   \<and> (fsub t1 t0 = fl64 (2001/10000) \<longrightarrow>
        calculate_bpm_from_beats [t0, t1] = Inr (2637509152086357 / 8796093022208))
   \<and> (fsub t1 t0 = fl64 (19999/10000) \<longrightarrow>
        calculate_bpm_from_beats [t0, t1] = Inr (8444671534896425 / 281474976710656))"
proof -
  have a: "fl64 (2/10) < fl64 (2001/10000)" "fl64 (2001/10000) < 2"
    and b: "fl64 (2/10) < fl64 (19999/10000)" "fl64 (19999/10000) < 2"
    unfolding fl64_lit_0_2 fl64_lit_0_2001 fl64_lit_1_9999 by simp_all
  have c1: "np_diff beats = map (\<lambda>i. fsub (beats ! Suc i) (beats ! i)) [0..<length beats - 1]"
    by (rule np_diff_nth)
  have c2: "2 \<le> length beats \<longrightarrow>
        calculate_bpm_from_beats beats =
          (if filter (\<lambda>d. fl64 (2/10) < d \<and> d < 2) (np_diff beats) = [] then Inr 0
           else fdiv 60 (median_spec (filter (\<lambda>d. fl64 (2/10) < d \<and> d < 2) (np_diff beats))))"
    using estimator_on_retained by blast
  have c3: "count_list (filter (\<lambda>d. fl64 (2/10) < d \<and> d < 2) (np_diff beats)) (fl64 (2/10)) = 0"
    and c4: "count_list (filter (\<lambda>d. fl64 (2/10) < d \<and> d < 2) (np_diff beats)) 2 = 0"
    by (simp_all add: count_list_filter)
  have c5: "count_list (filter (\<lambda>d. fl64 (2/10) < d \<and> d < 2) (np_diff beats)) (fl64 (2001/10000))
       = count_list (np_diff beats) (fl64 (2001/10000))"
    using a by (simp only: count_list_filter if_True simp_thms)
  have c6: "count_list (filter (\<lambda>d. fl64 (2/10) < d \<and> d < 2) (np_diff beats)) (fl64 (19999/10000))
       = count_list (np_diff beats) (fl64 (19999/10000))"
    using b by (simp only: count_list_filter if_True simp_thms)
  have c7: "fsub t1 t0 = fl64 (2/10) \<or> fsub t1 t0 = 2 \<longrightarrow> calculate_bpm_from_beats [t0, t1] = Inr 0"
    by (auto simp only: bpm_two_timestamps) simp_all
  have c8: "fsub t1 t0 = fl64 (2001/10000) \<longrightarrow>
        calculate_bpm_from_beats [t0, t1] = Inr (2637509152086357 / 8796093022208)"
    using a by (auto simp only: bpm_two_timestamps fdiv_60_0_2001 simp_thms if_True)
  have c9: "fsub t1 t0 = fl64 (19999/10000) \<longrightarrow>
        calculate_bpm_from_beats [t0, t1] = Inr (8444671534896425 / 281474976710656)"
    using b by (auto simp only: bpm_two_timestamps fdiv_60_1_9999 simp_thms if_True)
  show ?thesis
    by (intro conjI c1 c2 c3 c4 c5 c6 c7 c8 c9)
qed

theorem band_boundaries_witness:
  "fsub (fl64 (45/100)) (1/4) = fl64 (2/10)
   \<and> calculate_bpm_from_beats [1/4, fl64 (45/100)] = Inr 0
   \<and> calculate_bpm_from_beats [0, fl64 (2/10)] = Inr 0
   \<and> calculate_bpm_from_beats [0, 2] = Inr 0
   \<and> calculate_bpm_from_beats [0, fl64 (2001/10000)] = Inr (2637509152086357 / 8796093022208)
   \<and> calculate_bpm_from_beats [0, fl64 (19999/10000)] = Inr (8444671534896425 / 281474976710656)
   \<and> np_diff [0, 2, 4, 9/2] = [2, 2, 1/2]
   \<and> filter (\<lambda>d. fl64 (2/10) < d \<and> d < 2) [2, 2, 1/2] = [1/2]
   \<and> calculate_bpm_from_beats [0, 2, 4, 9/2] = Inr 120
   \<and> calculate_bpm_from_beats [0, 2, 4] = Inr 0"
proof -
  have s1: "fsub (fl64 (45/100)) (1/4) = fl64 (2/10)"
    by code_simp
  have s2: "fsub (fl64 (2/10)) 0 = fl64 (2/10)" "fsub 2 0 = 2"
    "fsub (fl64 (2001/10000)) 0 = fl64 (2001/10000)" "fsub (fl64 (19999/10000)) 0 = fl64 (19999/10000)"
    using fl64_pow2 [of 1] by (simp_all add: fsub_def)
  have d: "np_diff [0, 2, 4, 9/2] = [2, 2, 1/2]"
    by code_simp
  have f: "filter (\<lambda>d. fl64 (2/10) < d \<and> d < 2) [2, 2, 1/2] = [1/2]"
    unfolding fl64_lit_0_2 by simp
  have m: "median_spec [1/2] = 1/2"
    by code_simp
  have q: "fdiv 60 (1/2) = Inr 120"
    by code_simp
  have d': "np_diff [0, 2, 4] = [2, 2]"
    by code_simp
  have f': "filter (\<lambda>d. fl64 (2/10) < d \<and> d < 2) [2, 2] = []"
    by simp
  have r1: "calculate_bpm_from_beats [1/4, fl64 (45/100)] = Inr 0"
    using band_boundaries [of "[]" "fl64 (45/100)" "1/4"] s1 by blast
  have r2: "calculate_bpm_from_beats [0, fl64 (2/10)] = Inr 0"
    using band_boundaries [of "[]" "fl64 (2/10)" 0] s2(1) by blast
  have r3: "calculate_bpm_from_beats [0, 2] = Inr 0"
    using band_boundaries [of "[]" 2 0] s2(2) by blast
  have r4: "calculate_bpm_from_beats [0, fl64 (2001/10000)] = Inr (2637509152086357 / 8796093022208)"
    using band_boundaries [of "[]" "fl64 (2001/10000)" 0] s2(3) by blast
  have r5: "calculate_bpm_from_beats [0, fl64 (19999/10000)] = Inr (8444671534896425 / 281474976710656)"
    using band_boundaries [of "[]" "fl64 (19999/10000)" 0] s2(4) by blast
  have "2 \<le> length [0, 2, 4, 9/2 :: rat]"
    by simp
  then have "calculate_bpm_from_beats [0, 2, 4, 9/2] =
      (if filter (\<lambda>d. fl64 (2/10) < d \<and> d < 2) (np_diff [0, 2, 4, 9/2]) = [] then Inr 0
       else fdiv 60 (median_spec (filter (\<lambda>d. fl64 (2/10) < d \<and> d < 2) (np_diff [0, 2, 4, 9/2]))))"
    using band_boundaries [of "[0, 2, 4, 9/2]" 0 0] by blast
  then have r6: "calculate_bpm_from_beats [0, 2, 4, 9/2] = Inr 120"
    unfolding d f m q by simp
  have "2 \<le> length [0, 2, 4 :: rat]"
    by simp
  then have "calculate_bpm_from_beats [0, 2, 4] =
      (if filter (\<lambda>d. fl64 (2/10) < d \<and> d < 2) (np_diff [0, 2, 4]) = [] then Inr 0
       else fdiv 60 (median_spec (filter (\<lambda>d. fl64 (2/10) < d \<and> d < 2) (np_diff [0, 2, 4]))))"
    using band_boundaries [of "[0, 2, 4]" 0 0] by blast
  then have r7: "calculate_bpm_from_beats [0, 2, 4] = Inr 0"
    unfolding d' f' by simp
  show ?thesis
    by (intro conjI s1 r1 r2 r3 r4 r5 d f r6 r7)
qed

text \<open>
  C5. For the timestamps [0.0, 0.5, 1.0, 3.5, 4.0] the intervals are 0.5, 0.5, 2.5, 0.5;
  the 2.5 s interval is not among the retained intervals, the estimator returns 60.0
  divided by the median of the retained intervals, and that is exactly 120.0. The filter
  acts before the median on every sequence: the result is 60.0 divided by the median of
  the retained intervals, so every sequence that retains three intervals of 0.5 s gives
  120.0, whatever gaps it contains.
\<close>

theorem outlier_example:
  "np_diff [0, 1/2, 1, 7/2, 4] = [1/2, 1/2, 5/2, 1/2]
   \<and> filter (\<lambda>d. fl64 (2/10) < d \<and> d < 2) (np_diff [0, 1/2, 1, 7/2, 4]) = [1/2, 1/2, 1/2]
   \<and> calculate_bpm_from_beats [0, 1/2, 1, 7/2, 4]
       = fdiv 60 (median_spec (filter (\<lambda>d. fl64 (2/10) < d \<and> d < 2) (np_diff [0, 1/2, 1, 7/2, 4])))
   \<and> median_spec [1/2, 1/2, 1/2] = 1/2
   \<and> calculate_bpm_from_beats [0, 1/2, 1, 7/2, 4] = Inr 120
   \<and> (2 \<le> length beats \<longrightarrow>
        filter (\<lambda>d. fl64 (2/10) < d \<and> d < 2) (np_diff beats) \<noteq> [] \<longrightarrow>
        calculate_bpm_from_beats beats
          = fdiv 60 (median_spec (filter (\<lambda>d. fl64 (2/10) < d \<and> d < 2) (np_diff beats))))
   \<and> (2 \<le> length beats \<longrightarrow>
        filter (\<lambda>d. fl64 (2/10) < d \<and> d < 2) (np_diff beats) = [1/2, 1/2, 1/2] \<longrightarrow>
        calculate_bpm_from_beats beats = Inr 120)"
proof -
  have d: "np_diff [0, 1/2, 1, 7/2, 4] = [1/2, 1/2, 5/2, 1/2]"
    by code_simp
  have f: "filter (\<lambda>d. fl64 (2/10) < d \<and> d < 2) (np_diff [0, 1/2, 1, 7/2, 4]) = [1/2, 1/2, 1/2]"
    unfolding d fl64_lit_0_2 by simp
  have m: "median_spec [1/2, 1/2, 1/2] = 1/2"
    by code_simp
  have q: "fdiv 60 (1/2) = Inr 120"
    by code_simp
  have g: "calculate_bpm_from_beats bs = fdiv 60 (median_spec [1/2, 1/2, 1/2])"
    if "2 \<le> length bs" and "filter (\<lambda>d. fl64 (2/10) < d \<and> d < 2) (np_diff bs) = [1/2, 1/2, 1/2]"
    for bs
    using estimator_on_retained [OF that(1)] by (simp only: that(2)) simp
  have c3: "calculate_bpm_from_beats [0, 1/2, 1, 7/2, 4]
       = fdiv 60 (median_spec (filter (\<lambda>d. fl64 (2/10) < d \<and> d < 2) (np_diff [0, 1/2, 1, 7/2, 4])))"
    using g [of "[0, 1/2, 1, 7/2, 4]"] f by simp
  have c5: "calculate_bpm_from_beats [0, 1/2, 1, 7/2, 4] = Inr 120"
    using g [of "[0, 1/2, 1, 7/2, 4]"] f by (simp add: m q)
  have c6: "2 \<le> length beats \<longrightarrow>
        filter (\<lambda>d. fl64 (2/10) < d \<and> d < 2) (np_diff beats) \<noteq> [] \<longrightarrow>
        calculate_bpm_from_beats beats
          = fdiv 60 (median_spec (filter (\<lambda>d. fl64 (2/10) < d \<and> d < 2) (np_diff beats)))"
    using estimator_on_retained [of beats] by simp
  have c7: "2 \<le> length beats \<longrightarrow>
        filter (\<lambda>d. fl64 (2/10) < d \<and> d < 2) (np_diff beats) = [1/2, 1/2, 1/2] \<longrightarrow>
        calculate_bpm_from_beats beats = Inr 120"
    using g [of beats] by (simp add: m q)
  show ?thesis
    by (intro conjI d f c3 m c5 c6 c7)
qed

theorem outlier_example_witness:
  "np_diff [0, 1/2, 4, 8, 17/2, 9, 30] = [1/2, 7/2, 4, 1/2, 1/2, 21]
   \<and> filter (\<lambda>d. fl64 (2/10) < d \<and> d < 2) [1/2, 7/2, 4, 1/2, 1/2, 21] = [1/2, 1/2, 1/2]
   \<and> median_spec [1/2, 7/2, 4, 1/2, 1/2, 21] = 2
   \<and> calculate_bpm_from_beats [0, 1/2, 4, 8, 17/2, 9, 30] = Inr 120
   \<and> np_diff [0, 3/8, 7/8, 3/2, 4] = [3/8, 1/2, 5/8, 5/2]
   \<and> filter (\<lambda>d. fl64 (2/10) < d \<and> d < 2) [3/8, 1/2, 5/8, 5/2] = [3/8, 1/2, 5/8]
   \<and> median_spec [3/8, 1/2, 5/8] = 1/2
   \<and> calculate_bpm_from_beats [0, 3/8, 7/8, 3/2, 4] = Inr 120"
proof -
  have d: "np_diff [0, 1/2, 4, 8, 17/2, 9, 30] = [1/2, 7/2, 4, 1/2, 1/2, 21]"
    by code_simp
  have f: "filter (\<lambda>d. fl64 (2/10) < d \<and> d < 2) [1/2, 7/2, 4, 1/2, 1/2, 21] = [1/2, 1/2, 1/2]"
    unfolding fl64_lit_0_2 by simp
  have u: "median_spec [1/2, 7/2, 4, 1/2, 1/2, 21] = 2"
    by code_simp
  have h: "2 \<le> length [0, 1/2, 4, 8, 17/2, 9, 30 :: rat]"
    by simp
  have r: "calculate_bpm_from_beats [0, 1/2, 4, 8, 17/2, 9, 30] = Inr 120"
    using outlier_example [of "[0, 1/2, 4, 8, 17/2, 9, 30]"] h f unfolding d by blast
  have d2: "np_diff [0, 3/8, 7/8, 3/2, 4] = [3/8, 1/2, 5/8, 5/2]"
    by code_simp
  have f2: "filter (\<lambda>d. fl64 (2/10) < d \<and> d < 2) [3/8, 1/2, 5/8, 5/2] = [3/8, 1/2, 5/8]"
    unfolding fl64_lit_0_2 by simp
  have m2: "median_spec [3/8, 1/2, 5/8] = 1/2"
    by code_simp
  have q: "fdiv 60 (1/2) = Inr 120"
    by code_simp
  have h2: "2 \<le> length [0, 3/8, 7/8, 3/2, 4 :: rat]"
    by simp
  have n2: "filter (\<lambda>d. fl64 (2/10) < d \<and> d < 2) (np_diff [0, 3/8, 7/8, 3/2, 4]) \<noteq> []"
    unfolding d2 f2 by simp
  have "calculate_bpm_from_beats [0, 3/8, 7/8, 3/2, 4]
      = fdiv 60 (median_spec (filter (\<lambda>d. fl64 (2/10) < d \<and> d < 2) (np_diff [0, 3/8, 7/8, 3/2, 4])))"
    using outlier_example [of "[0, 3/8, 7/8, 3/2, 4]"] h2 n2 by blast
  then have r2: "calculate_bpm_from_beats [0, 3/8, 7/8, 3/2, 4] = Inr 120"
    unfolding d2 f2 m2 q .
  show ?thesis
    by (intro conjI d f u r d2 f2 m2 r2)
qed

text \<open>
  C6, as stated, fails: for the timestamps [0.0, 0.4, 0.9, 1.4] the intervals are not
  [0.4, 0.5, 0.5], their median is not 0.5 and the estimator does not return 120.0.
  The binary64 difference 1.4 - 0.9 is 0.5 - 2^-53, printed 0.4999999999999999.
\<close>

theorem even_count_example_counterexample:
  "np_diff [0, fl64 (4/10), fl64 (9/10), fl64 (14/10)] \<noteq> [fl64 (4/10), 1/2, 1/2]
   \<and> np_median (np_diff [0, fl64 (4/10), fl64 (9/10), fl64 (14/10)]) \<noteq> Inr (1/2)
   \<and> calculate_bpm_from_beats [0, fl64 (4/10), fl64 (9/10), fl64 (14/10)] \<noteq> Inr 120"
proof -
  have d: "np_diff [0, fl64 (4/10), fl64 (9/10), fl64 (14/10)]
      = [3602879701896397 / 9007199254740992, 1/2, 4503599627370495 / 9007199254740992]"
    by code_simp
  have m: "np_median [3602879701896397 / 9007199254740992, 1/2, 4503599627370495 / 9007199254740992]
      = Inr (4503599627370495 / 9007199254740992)"
    by code_simp
  have c: "calculate_bpm_from_beats [0, fl64 (4/10), fl64 (9/10), fl64 (14/10)]
      = Inr (4222124650659841 / 35184372088832)"
    by code_simp
  show ?thesis
    unfolding d m c by simp
qed

text \<open>
  C6, amended. For the timestamps [0.0, 0.4, 0.9, 1.4], read as binary64 values, the
  intervals are 0.4, 0.5 and 0.5 - 2^-53; all three are retained; their median is
  0.5 - 2^-53; the estimator returns 120 + 2^-45, printed 120.00000000000003.
\<close>

theorem even_count_example_binary64:
  "[0, fl64 (4/10), fl64 (9/10), fl64 (14/10)]
     = [0, 3602879701896397 / 2 ^ 53, 8106479329266893 / 2 ^ 53, 3152519739159347 / 2 ^ 51]
   \<and> np_diff [0, fl64 (4/10), fl64 (9/10), fl64 (14/10)] = [fl64 (4/10), 1/2, 1/2 - 1 / 2 ^ 53]
   \<and> filter (\<lambda>d. fl64 (2/10) < d \<and> d < 2) [fl64 (4/10), 1/2, 1/2 - 1 / 2 ^ 53]
       = [fl64 (4/10), 1/2, 1/2 - 1 / 2 ^ 53]
   \<and> np_median [fl64 (4/10), 1/2, 1/2 - 1 / 2 ^ 53] = Inr (1/2 - 1 / 2 ^ 53)
   \<and> calculate_bpm_from_beats [0, fl64 (4/10), fl64 (9/10), fl64 (14/10)] = Inr (120 + 1 / 2 ^ 45)"
proof -
  have c1: "[0, fl64 (4/10), fl64 (9/10), fl64 (14/10)]
     = [0, 3602879701896397 / 2 ^ 53, 8106479329266893 / 2 ^ 53, 3152519739159347 / 2 ^ 51]"
    unfolding fl64_lit_0_4 fl64_lit_0_9 fl64_lit_1_4 by simp
  have c2: "np_diff [0, fl64 (4/10), fl64 (9/10), fl64 (14/10)] = [fl64 (4/10), 1/2, 1/2 - 1 / 2 ^ 53]"
    by code_simp
  have c3: "filter (\<lambda>d. fl64 (2/10) < d \<and> d < 2) [fl64 (4/10), 1/2, 1/2 - 1 / 2 ^ 53]
       = [fl64 (4/10), 1/2, 1/2 - 1 / 2 ^ 53]"
    by code_simp
  have c4: "np_median [fl64 (4/10), 1/2, 1/2 - 1 / 2 ^ 53] = Inr (1/2 - 1 / 2 ^ 53)"
    by code_simp
  have c5: "calculate_bpm_from_beats [0, fl64 (4/10), fl64 (9/10), fl64 (14/10)] = Inr (120 + 1 / 2 ^ 45)"
    by code_simp
  show ?thesis
    by (intro conjI c1 c2 c3 c4 c5)
qed

text \<open>
  C7. The estimator is total on every timestamp sequence, sorted or not, with or without
  duplicates: either it degrades to 0.0 (fewer than two timestamps, or no interval in the
  band), or it takes the median path; there the median is a finite value strictly greater
  than 0.2, so the division 60.0 / median_interval never divides by zero and the result is
  a finite number.
\<close>

theorem estimator_never_fails:
  "(length beats < 2 \<or> filter (\<lambda>d. fl64 (2/10) < d \<and> d < 2) (np_diff beats) = [])
     \<and> calculate_bpm_from_beats beats = Inr 0
   \<or> (2 \<le> length beats
      \<and> (\<exists>m. np_median (filter (\<lambda>d. fl64 (2/10) < d \<and> d < 2) (np_diff beats)) = Inr m
            \<and> fl64 (2/10) < m
            \<and> fdiv 60 m = Inr (fl64 (60 / m))
            \<and> calculate_bpm_from_beats beats = Inr (fl64 (60 / m))))"
proof (cases "length beats < 2 \<or> filter (\<lambda>d. fl64 (2/10) < d \<and> d < 2) (np_diff beats) = []")
  case True
  then have "calculate_bpm_from_beats beats = Inr 0"
    by (auto simp add: calculate_bpm_from_beats_def)
  then show ?thesis using True by simp
next
  case False
  then have h: "2 \<le> length beats" "filter (\<lambda>d. fl64 (2/10) < d \<and> d < 2) (np_diff beats) \<noteq> []"
    by simp_all
  let ?m = "median_spec (filter (\<lambda>d. fl64 (2/10) < d \<and> d < 2) (np_diff beats))"
  have lo: "7205759403792795 / 36028797018963968 \<le> ?m"
    by (rule median_path(3) [OF h])
  have "fl64 (2/10) < ?m"
    using lo by (rule band_lo_gt)
  moreover have "fdiv 60 ?m = Inr (fl64 (60 / ?m))"
    using lo by (auto simp add: fdiv_def)
  ultimately show ?thesis
    using median_path(1,2) [OF h] h(1) by blast
qed

theorem estimator_never_fails_witness:
  "np_diff [1, 1, 1/2, 3/4] = [0, - (1/2), 1/4]
   \<and> filter (\<lambda>d. fl64 (2/10) < d \<and> d < 2) [0, - (1/2), 1/4] = [1/4]
   \<and> calculate_bpm_from_beats [1, 1, 1/2, 3/4] = Inr 240"
proof -
  have d: "np_diff [1, 1, 1/2, 3/4] = [0, - (1/2), 1/4]"
    by code_simp
  have f: "filter (\<lambda>d. fl64 (2/10) < d \<and> d < 2) [0, - (1/2), 1/4] = [1/4]"
    unfolding fl64_lit_0_2 by simp
  have m: "np_median [1/4] = Inr (1/4)"
    by code_simp
  have q: "fl64 (60 / (1/4)) = 240"
    by code_simp
  have "calculate_bpm_from_beats [1, 1, 1/2, 3/4] = Inr (fl64 (60 / (1/4)))"
    using estimator_never_fails [of "[1, 1, 1/2, 3/4]"] unfolding d f m
  proof (elim disjE conjE exE)
    fix m :: rat
    assume "Inr (1/4) = (Inr m :: nonfinite + rat)"
      and "calculate_bpm_from_beats [1, 1, 1/2, 3/4] = Inr (fl64 (60 / m))"
    then show ?thesis
      by (simp only: sum.inject)
  qed simp_all
  then show ?thesis
    using d f q by simp
qed

text \<open>
  C9. For every timestamp sequence the result is either exactly 0.0 or lies strictly
  between 30.0 and 300.0: every retained interval is strictly inside (0.2, 2.0), so is
  their median (also when it is the average of two of them), and 60.0 divided by it lies
  strictly inside (30.0, 300.0).
\<close>

theorem bpm_zero_or_in_range:
  "(\<exists>bpm. calculate_bpm_from_beats beats = Inr bpm \<and> (bpm = 0 \<or> 30 < bpm \<and> bpm < 300))
   \<and> (\<forall>d \<in> set (filter (\<lambda>d. fl64 (2/10) < d \<and> d < 2) (np_diff beats)). fl64 (2/10) < d \<and> d < 2)
   \<and> (filter (\<lambda>d. fl64 (2/10) < d \<and> d < 2) (np_diff beats) \<noteq> [] \<longrightarrow>
        (\<exists>m. np_median (filter (\<lambda>d. fl64 (2/10) < d \<and> d < 2) (np_diff beats)) = Inr m
              \<and> fl64 (2/10) < m \<and> m < 2))"
proof -
  let ?v = "filter (\<lambda>d. fl64 (2/10) < d \<and> d < 2) (np_diff beats)"
  have med: "\<exists>m. np_median ?v = Inr m \<and> fl64 (2/10) < m \<and> m < 2" if v: "?v \<noteq> []"
  proof -
    have fx: "\<forall>d \<in> set ?v. fl64 d = d"
      using valid_intervals_facts(1) by blast
    have bd: "\<forall>d \<in> set ?v. 7205759403792795 / 36028797018963968 \<le> d \<and> d \<le> 9007199254740991 / 4503599627370496"
      using valid_intervals_facts(2) by blast
    have "7205759403792795 / 36028797018963968 \<le> median_spec ?v"
      and "median_spec ?v \<le> 9007199254740991 / 4503599627370496"
      using median_spec_bounds [OF v bd] by simp_all
    then have "fl64 (2/10) < median_spec ?v" and "median_spec ?v < 2"
      by (simp_all only: band_lo_gt band_hi_lt)
    then show ?thesis
      using np_median_spec [OF v fx] by simp
  qed
  have "\<exists>bpm. calculate_bpm_from_beats beats = Inr bpm \<and> (bpm = 0 \<or> 30 < bpm \<and> bpm < 300)"
  proof (cases "length beats < 2 \<or> ?v = []")
    case True
    then have "calculate_bpm_from_beats beats = Inr 0"
      by (auto simp add: calculate_bpm_from_beats_def)
    then show ?thesis by simp
  next
    case False
    then have h: "2 \<le> length beats" "?v \<noteq> []"
      by simp_all
    show ?thesis
      using median_path(2) [OF h] bpm_bounds [OF median_path(3,4) [OF h]] by simp
  qed
  then show ?thesis
    using med by simp
qed

theorem bpm_zero_or_in_range_witness:
  "filter (\<lambda>d. fl64 (2/10) < d \<and> d < 2) (np_diff [0, 1/2, 5/4, 4]) = [1/2, 3/4]
   \<and> (\<exists>m. np_median [1/2, 3/4] = Inr m \<and> fl64 (2/10) < m \<and> m < 2)
   \<and> (\<exists>bpm. calculate_bpm_from_beats [0, 1/2, 5/4, 4] = Inr bpm \<and> (bpm = 0 \<or> 30 < bpm \<and> bpm < 300))"
proof -
  have f: "filter (\<lambda>d. fl64 (2/10) < d \<and> d < 2) (np_diff [0, 1/2, 5/4, 4]) = [1/2, 3/4]"
    by code_simp
  show ?thesis
    using bpm_zero_or_in_range [of "[0, 1/2, 5/4, 4]"] unfolding f by simp
qed

text \<open>
  C10, as stated, fails: adding 0.2 to the timestamps [0.0, 0.5] gives [0.2, 0.7], whose
  binary64 difference is 0.5 - 2^-54, and the estimator returns 120 + 2^-46 (printed
  120.00000000000001) instead of 120.0.
\<close>

theorem translation_counterexample:
  "translate (fl64 (2/10)) [0, 1/2] = [fl64 (2/10), fl64 (7/10)]
   \<and> np_diff [fl64 (2/10), fl64 (7/10)] = [1/2 - 1 / 2 ^ 54]
   \<and> calculate_bpm_from_beats (translate (fl64 (2/10)) [0, 1/2]) = Inr (120 + 1 / 2 ^ 46)
   \<and> calculate_bpm_from_beats [0, 1/2] = Inr 120
   \<and> calculate_bpm_from_beats (translate (fl64 (2/10)) [0, 1/2]) \<noteq> calculate_bpm_from_beats [0, 1/2]"
proof -
  have c1: "translate (fl64 (2/10)) [0, 1/2] = [fl64 (2/10), fl64 (7/10)]"
    by code_simp
  have c2: "calculate_bpm_from_beats (translate (fl64 (2/10)) [0, 1/2]) = Inr (120 + 1 / 2 ^ 46)"
    by code_simp
  have c3: "calculate_bpm_from_beats [0, 1/2] = Inr 120"
    by code_simp
  have c4: "np_diff [fl64 (2/10), fl64 (7/10)] = [1/2 - 1 / 2 ^ 54]"
    by code_simp
  have c5: "calculate_bpm_from_beats (translate (fl64 (2/10)) [0, 1/2]) \<noteq> calculate_bpm_from_beats [0, 1/2]"
    unfolding c2 c3 by simp
  show ?thesis
    by (intro conjI c1 c2 c3 c4 c5)
qed

text \<open>
  C10, amended. The estimator is translation-invariant for every timestamp sequence and
  every constant \<open>c\<close> for which each sum \<open>t + c\<close> is computed without rounding: the result
  depends only on the differences of consecutive timestamps.
\<close>

theorem translation_invariant_when_exact:
  assumes "\<forall>t \<in> set beats. fadd t c = t + c"
  shows "calculate_bpm_from_beats (translate c beats) = calculate_bpm_from_beats beats"
proof -
  have "translate c beats = map (\<lambda>t. t + c) beats"
    using assms by (simp add: translate_def)
  then show ?thesis
    by (simp add: calculate_bpm_from_beats_def np_diff_shift)
qed

theorem translation_invariant_when_exact_witness:
  "translate 10 [0, 1/2, 1] = [10, 21/2, 11]
   \<and> calculate_bpm_from_beats [10, 21/2, 11] = calculate_bpm_from_beats [0, 1/2, 1]
   \<and> calculate_bpm_from_beats [0, 1/2, 1] = Inr 120"
proof -
  have t: "translate 10 [0, 1/2, 1] = [10, 21/2, 11]"
    by code_simp
  have h: "\<forall>t \<in> set [0, 1/2, 1]. fadd t 10 = t + 10"
    using t by (simp add: translate_def)
  have c: "calculate_bpm_from_beats [0, 1/2, 1] = Inr 120"
    by code_simp
  show ?thesis
    using translation_invariant_when_exact [OF h] t c by simp
qed

section \<open>Properties of the result assembly\<close>

text \<open>
  C8, as stated, fails: when a collaborator raises an exception whose message is empty,
  the document on standard error carries an empty \<open>error\<close> string, so the outcome is
  neither the success shape nor the failure shape with a non-empty message.
\<close>

theorem main_counterexample:
  "main example_parse_args raising_processor example_tracker [''a.wav'']
     = Exit [] [JObject [(''error'', JString []), (''beats'', JArray []),
                        (''bpm'', JNumber (Inr 0)), (''confidence'', JNumber (Inr 0))]] 1
   \<and> \<not> failure_shape (main example_parse_args raising_processor example_tracker [''a.wav''])
   \<and> \<not> success_shape (main example_parse_args raising_processor example_tracker [''a.wav''])"
  by (simp add: main_def example_parse_args_def raising_processor_def failure_shape_def
      success_shape_def error_message_def)

text \<open>
  C8, amended. An exception leaves \<open>main\<close> uncaught when \<open>parse_args\<close> raises (argparse
  rejects the command line before the \<^verbatim>\<open>try\<close> block) and when a collaborator raises
  something that is not an \<^verbatim>\<open>Exception\<close> (\<^verbatim>\<open>SystemExit\<close>, \<^verbatim>\<open>KeyboardInterrupt\<close>, another
  \<^verbatim>\<open>BaseException\<close>). In every other run the outcome has exactly one of two disjoint
  shapes: when both collaborators return, the object with \<open>beats\<close>, \<open>bpm\<close> and
  \<open>confidence\<close> is written to standard output and the status is 0; when a collaborator
  raises an \<^verbatim>\<open>Exception\<close>, the object with \<open>error\<close> equal to its message (which may be
  empty), empty \<open>beats\<close>, \<open>bpm\<close> 0.0 and \<open>confidence\<close> 0.0 is written to standard error
  and the status is 1.
\<close>

theorem main_outcomes:
  "(case parse_args argv of
      Inl raised \<Rightarrow> main parse_args proc trk argv = Uncaught raised
    | Inr a \<Rightarrow>
        (case proc (wav_path a) of
           Inl raised \<Rightarrow>
             (case raised of
                Exception msg \<Rightarrow>
                  main parse_args proc trk argv =
                    Exit [] [JObject [(''error'', JString msg), (''beats'', JArray []),
                                      (''bpm'', JNumber (Inr 0)), (''confidence'', JNumber (Inr 0))]] 1
                  \<and> error_shape (main parse_args proc trk argv)
                  \<and> \<not> success_shape (main parse_args proc trk argv)
                  \<and> error_message (main parse_args proc trk argv) = msg
              | SystemExit code \<Rightarrow> main parse_args proc trk argv = Uncaught raised
              | KeyboardInterrupt \<Rightarrow> main parse_args proc trk argv = Uncaught raised
              | Other_BaseException name \<Rightarrow> main parse_args proc trk argv = Uncaught raised)
         | Inr activations \<Rightarrow>
             (case trk 100 (min_bpm a) (max_bpm a) activations of
                Inl raised \<Rightarrow>
                  (case raised of
                     Exception msg \<Rightarrow>
                       main parse_args proc trk argv =
                         Exit [] [JObject [(''error'', JString msg), (''beats'', JArray []),
                                           (''bpm'', JNumber (Inr 0)), (''confidence'', JNumber (Inr 0))]] 1
                       \<and> error_shape (main parse_args proc trk argv)
                       \<and> \<not> success_shape (main parse_args proc trk argv)
                       \<and> error_message (main parse_args proc trk argv) = msg
                   | SystemExit code \<Rightarrow> main parse_args proc trk argv = Uncaught raised
                   | KeyboardInterrupt \<Rightarrow> main parse_args proc trk argv = Uncaught raised
                   | Other_BaseException name \<Rightarrow> main parse_args proc trk argv = Uncaught raised)
              | Inr beats \<Rightarrow>
                  main parse_args proc trk argv =
                    Exit [JObject [(''beats'', JArray (map (\<lambda>t. JNumber (Inr t)) beats)),
                                   (''bpm'', JNumber (calculate_bpm_from_beats beats)),
                                   (''confidence'', JNumber (Inr (fl64 (85/100))))]] [] 0
                  \<and> success_shape (main parse_args proc trk argv)
                  \<and> \<not> error_shape (main parse_args proc trk argv))))"
  by (auto simp add: main_def success_shape_def error_shape_def error_message_def Let_def
      split: sum.splits exn.splits)

theorem main_outcomes_witness:
  "main example_parse_args example_processor example_tracker [''a.wav'']
     = Exit [JObject [(''beats'', JArray [JNumber (Inr 0), JNumber (Inr (1/2))]),
                      (''bpm'', JNumber (Inr 120)),
                      (''confidence'', JNumber (Inr (fl64 (85/100))))]] [] 0
   \<and> success_shape (main example_parse_args example_processor example_tracker [''a.wav''])
   \<and> error_shape (main example_parse_args raising_processor example_tracker [''a.wav''])
   \<and> error_message (main example_parse_args raising_processor example_tracker [''a.wav'']) = []
   \<and> main example_parse_args interrupted_processor example_tracker [''a.wav'']
       = Uncaught KeyboardInterrupt
   \<and> main example_parse_args example_processor exiting_tracker [''a.wav'']
       = Uncaught (SystemExit 3)
   \<and> main example_parse_args example_processor example_tracker [] = Uncaught (SystemExit 2)"
proof -
  have p: "example_parse_args [''a.wav''] = Inr \<lparr>wav_path = ''a.wav'', min_bpm = 55, max_bpm = 215\<rparr>"
    and q: "example_parse_args [] = Inl (SystemExit 2)"
    by (simp_all add: example_parse_args_def)
  have c: "calculate_bpm_from_beats [0, 1/2] = Inr 120"
    by code_simp
  show ?thesis
    using main_outcomes [where parse_args = example_parse_args and argv = "[''a.wav'']"
          and proc = example_processor and trk = example_tracker]
      main_outcomes [where parse_args = example_parse_args and argv = "[''a.wav'']"
          and proc = raising_processor and trk = example_tracker]
      main_outcomes [where parse_args = example_parse_args and argv = "[''a.wav'']"
          and proc = interrupted_processor and trk = example_tracker]
      main_outcomes [where parse_args = example_parse_args and argv = "[''a.wav'']"
          and proc = example_processor and trk = exiting_tracker]
      main_outcomes [where parse_args = example_parse_args and argv = "[]"
          and proc = example_processor and trk = example_tracker]
    by (simp (no_asm_use) add: p q example_processor_def example_tracker_def
        raising_processor_def interrupted_processor_def exiting_tracker_def c) blast
qed

end
